theory Spec2Isabelle
  imports Complex_Main "HOL-Library.Word" "HOL-Library.Log_Nat" "HOL-Library.Sublist"
begin

text \<open>
  The function \<open>getALPAPR\<close> of \<open>src/projects/amped/functions/liquidity/getALPAPR.ts\<close>:
  it validates the network name, reads the total supply of the reward tracker and the
  tokens per interval of the reward distributor, and returns the yearly rewards and the
  annual rate as strings. The model keeps what the function does in the order it does
  it: the notifications and the reads are events, a thrown value is a value, BigInts are
  natural numbers, and Numbers are doubles, given by the rationals they denote.
\<close>

section \<open>JavaScript values used by getALPAPR\<close>

text \<open>
  A thrown value is either an instance of \<open>Error\<close>, which carries a message, or any other
  value; the \<open>catch\<close> block of the function tells the two apart with \<open>instanceof\<close>.
\<close>

datatype thrown = Error string | NonError

text \<open>
  The contract reads return \<open>uint256\<close> values, which the client decodes to BigInts. BigInt
  arithmetic is unbounded, so the arithmetic is done on \<open>nat\<close> after \<open>unat\<close>.
\<close>

type_synonym u256 = "256 word"

text \<open>
  BigInt division truncates and throws a \<open>RangeError\<close> (an \<open>Error\<close>) on a zero divisor;
  the message is the one of V8, the engine of Node.js. All operands of the function are
  non-negative, where truncation is \<open>div\<close>.
\<close>

definition bigint_div :: "nat \<Rightarrow> nat \<Rightarrow> thrown + nat" where
  "bigint_div a b = (if b = 0 then Inl (Error ''Division by zero'') else Inr (a div b))"

subsection \<open>Numbers: IEEE 754 binary64, non-negative values\<close>

text \<open>
  A Number is a double. Every Number of the function is non-negative (or NaN), so the sign
  is left out; a finite double is represented by the rational it denotes.
\<close>

datatype number = NaN | Infinity | Finite rat

text \<open>\<open>ilog2 x\<close> is the binary exponent of a positive rational: \<open>2^e \<le> x < 2^(e+1)\<close>.\<close>

definition ilog2 :: "rat \<Rightarrow> int" where
  "ilog2 x = (let d = bitlen (fst (quotient_of x)) - bitlen (snd (quotient_of x))
              in if power_int 2 d \<le> x then d else d - 1)"

text \<open>Rounding to the nearest integer, ties to the even one.\<close>

definition round_ties_even :: "rat \<Rightarrow> int" where
  "round_ties_even x =
     (let f = \<lfloor>x\<rfloor>; r = x - of_int f
      in if r < 1 / 2 then f else if 1 / 2 < r then f + 1 else if even f then f else f + 1)"

text \<open>
  The unit in the last place of the binade of \<open>x\<close>: 53 significant bits, and the fixed
  spacing \<open>2^-1074\<close> of the subnormal range, which is the binade below \<open>2^-1022\<close>.
\<close>

definition binade :: "rat \<Rightarrow> int" where
  "binade x = max (ilog2 x) (- 1022)"

definition ulp :: "rat \<Rightarrow> rat" where
  "ulp x = power_int 2 (binade x - 52)"

definition round_double :: "rat \<Rightarrow> rat" where
  "round_double x = (if x = 0 then 0 else of_int (round_ties_even (x / ulp x)) * ulp x)"

text \<open>The Number value for a non-negative rational: round to nearest, overflow to Infinity.\<close>

definition overflow_threshold :: rat where
  "overflow_threshold = 2 ^ 1024"

definition to_number :: "rat \<Rightarrow> number" where
  "to_number x = (let y = round_double x in if overflow_threshold \<le> y then Infinity else Finite y)"

text \<open>\<open>Number(b)\<close> for a BigInt \<open>b\<close>.\<close>

definition Number :: "nat \<Rightarrow> number" where
  "Number b = to_number (of_nat b)"

text \<open>The operator \<open>/\<close> on Numbers (non-negative operands).\<close>

fun num_div :: "number \<Rightarrow> number \<Rightarrow> number" where
  "num_div NaN _ = NaN"
| "num_div _ NaN = NaN"
| "num_div Infinity Infinity = NaN"
| "num_div Infinity (Finite b) = Infinity"
| "num_div (Finite a) Infinity = Finite 0"
| "num_div (Finite a) (Finite b) =
     (if b = 0 then (if a = 0 then NaN else Infinity) else to_number (a / b))"

subsection \<open>Strings of numbers\<close>

definition digit_char :: "nat \<Rightarrow> char" where
  "digit_char d = ''0123456789'' ! d"

text \<open>\<open>BigInt.prototype.toString()\<close>: the decimal digits, most significant first.\<close>

fun decimal :: "nat \<Rightarrow> string" where
  "decimal n = (if n < 10 then [digit_char n] else decimal (n div 10) @ [digit_char (n mod 10)])"

declare decimal.simps [simp del]

text \<open>
  \<open>Number::toString\<close> for a finite double \<open>x \<ge> 10^21\<close> (an integer): the shortest digit
  string \<open>s\<close> with \<open>k\<close> digits such that \<open>s \<times> 10^(n-k)\<close> rounds to \<open>x\<close>, the closest to \<open>x\<close>
  when there are two, the even one when they are equally close. \<open>shortest_from x j\<close> looks
  for the decimal among the multiples of \<open>10^j\<close>, then of \<open>10^(j-1)\<close>, down to \<open>10^0\<close>, where
  \<open>x\<close> itself is found.
\<close>

fun shortest_from :: "rat \<Rightarrow> nat \<Rightarrow> nat" where
  "shortest_from x 0 = nat \<lfloor>x\<rfloor>"
| "shortest_from x (Suc j) =
     (let scale = 10 ^ Suc j;
          s = nat \<lfloor>x / of_nat scale\<rfloor>;
          lo = s * scale;
          hi = nat \<lceil>x / of_nat scale\<rceil> * scale;
          lo_ok = (to_number (of_nat lo) = Finite x);
          hi_ok = (to_number (of_nat hi) = Finite x)
      in if lo_ok \<and> hi_ok then
           (if x - of_nat lo < of_nat hi - x then lo
            else if of_nat hi - x < x - of_nat lo then hi
            else if even s then lo else hi)
         else if lo_ok then lo
         else if hi_ok then hi
         else shortest_from x j)"

definition shortest_decimal :: "rat \<Rightarrow> nat" where
  "shortest_decimal x = shortest_from x (length (decimal (nat \<lfloor>x\<rfloor>)) - 1)"

text \<open>
  The exponential notation of \<open>Number::toString\<close> for the decimal \<open>v = s \<times> 10^(n-k)\<close>:
  the first digit of \<open>s\<close>, a point and its other digits when there are any, then \<open>e+\<close> and
  \<open>n - 1\<close>.
\<close>

definition exponential :: "nat \<Rightarrow> string" where
  "exponential v =
     (let ds = decimal v;
          s = rev (dropWhile (\<lambda>c. c = CHR ''0'') (rev ds))
      in (if length s = 1 then s else hd s # CHR ''.'' # tl s) @ ''e+'' @ decimal (length ds - 1))"

text \<open>
  \<open>Number.prototype.toFixed(2)\<close>. A value that is not finite prints as its name. At
  \<open>10^21\<close> and above the result is \<open>ToString(x)\<close>, which is in exponential notation there.
  Below, \<open>n\<close> is the integer for which \<open>n / 100\<close> is closest to \<open>x\<close> (the larger of two), and
  the result is the digits of \<open>n\<close>, padded with zeros to three digits, with a point before
  the last two.
\<close>

definition hundredths :: "rat \<Rightarrow> nat" where
  "hundredths r = nat \<lfloor>r * 100 + 1 / 2\<rfloor>"

definition fixed2 :: "nat \<Rightarrow> string" where
  "fixed2 n =
     (let m = decimal n;
          m = (if length m \<le> 2 then replicate (3 - length m) CHR ''0'' @ m else m)
      in take (length m - 2) m @ ''.'' @ drop (length m - 2) m)"

definition toFixed2 :: "number \<Rightarrow> string" where
  "toFixed2 x =
     (case x of
        NaN \<Rightarrow> ''NaN''
      | Infinity \<Rightarrow> ''Infinity''
      | Finite r \<Rightarrow>
          if 10 ^ 21 \<le> r then exponential (shortest_decimal r) else fixed2 (hundredths r))"

text \<open>
  The two shapes of numeral in the result: an integer numeral is one digit or more; a
  numeral with two decimals is an integer numeral, a point and two digits.
\<close>

definition is_digit :: "char \<Rightarrow> bool" where
  "is_digit c = (c \<in> set ''0123456789'')"

definition is_integer_numeral :: "string \<Rightarrow> bool" where
  "is_integer_numeral s = (s \<noteq> [] \<and> list_all is_digit s)"

definition is_two_decimal_numeral :: "string \<Rightarrow> bool" where
  "is_two_decimal_numeral s =
     (3 \<le> length s \<and>
      is_integer_numeral (take (length s - 3) s) \<and>
      s ! (length s - 3) = CHR ''.'' \<and>
      list_all is_digit (drop (length s - 2) s))"

text \<open>
  The comparison \<open>\<le>\<close> of two Numbers; it is false when either is NaN.
\<close>

fun num_le :: "number \<Rightarrow> number \<Rightarrow> bool" where
  "num_le (Finite a) (Finite b) = (a \<le> b)"
| "num_le (Finite a) Infinity = True"
| "num_le Infinity Infinity = True"
| "num_le _ _ = False"

text \<open>
  The number that a string printed by \<open>toFixed\<close> denotes, read exactly: the digits before
  and after the point, times the power of ten after \<open>e+\<close> when there is one.
\<close>

definition digits_value :: "string \<Rightarrow> nat" where
  "digits_value s = foldl (\<lambda>a c. 10 * a + (of_char c - 48)) 0 s"

definition numeral_value :: "string \<Rightarrow> number" where
  "numeral_value s =
     (if s = ''NaN'' then NaN
      else if s = ''Infinity'' then Infinity
      else
        let mantissa = takeWhile (\<lambda>c. c \<noteq> CHR ''e'') s;
            exponent = drop (length mantissa + 2) s;
            whole = takeWhile (\<lambda>c. c \<noteq> CHR ''.'') mantissa;
            fraction = drop (length whole + 1) mantissa
        in Finite (of_nat (digits_value (whole @ fraction)) *
                   power_int 10 (int (digits_value exponent) - int (length fraction))))"


text \<open>
  \<open>JSON.stringify\<close> of an object whose values are strings. The strings of the function
  hold digits, letters, a point and a plus sign, none of which is escaped.
\<close>

definition json_string :: "string \<Rightarrow> string" where
  "json_string s = CHR 0x22 # s @ [CHR 0x22]"

fun json_members :: "(string \<times> string) list \<Rightarrow> string" where
  "json_members [] = []"
| "json_members [(k, v)] = json_string k @ '':'' @ json_string v"
| "json_members ((k, v) # kvs) = json_string k @ '':'' @ json_string v @ '','' @ json_members kvs"

definition JSON_stringify :: "(string \<times> string) list \<Rightarrow> string" where
  "JSON_stringify kvs = ''{'' @ json_members kvs @ ''}''"

section \<open>The function and its collaborators\<close>

text \<open>
  The constants module and the SDK are not part of the sources. What the function imports
  from them is a parameter: the name of the supported network (\<open>NETWORKS.SONIC\<close>), the two
  numeric constants, and \<open>getChainFromName\<close>, which gives no chain id for a name it does
  not know. \<open>SECONDS_PER_YEAR\<close> and \<open>PRECISION\<close> are Numbers that the function passes to
  \<open>BigInt()\<close>, which accepts integers only: they are non-negative integers here, and
  \<open>PRECISION\<close> is also the double by which line 60 divides.
\<close>

record imported =
  getChainFromName :: "string \<Rightarrow> nat option"
  NETWORKS_SONIC :: string
  SECONDS_PER_YEAR :: nat
  PRECISION :: nat

record Props =
  chainName :: string
  account :: string

text \<open>
  A provider answers the two contract reads, each with a \<open>uint256\<close> or a thrown value:
  \<open>rewardTracker.read.totalSupply()\<close> and \<open>distributor.read.tokensPerInterval()\<close>. The
  addresses and the ABIs are fixed configuration, and \<open>getContract\<close> only builds the two
  handles. \<open>getProvider\<close> resolves a chain id to a provider or throws; \<open>notify\<close> resolves
  or rejects. An invocation performs each read once and sends each message once, so a
  provider is its two answers and a notification sink is its answer to each message.
\<close>

record provider =
  read_totalSupply :: "thrown + u256"
  read_tokensPerInterval :: "thrown + u256"

record FunctionOptions =
  getProvider :: "nat \<Rightarrow> thrown + provider"
  notify :: "string \<Rightarrow> thrown option"

text \<open>
  \<open>toResult(data, error)\<close> of the SDK builds the value the function returns; it is kept
  as a constructor. The second argument is the failure tag (\<open>false\<close> when left out).
\<close>

datatype FunctionReturn = toResult string bool

text \<open>What an invocation does that its collaborators can observe, in order.\<close>

datatype event = Notify string | GetProvider nat | ReadTotalSupply | ReadTokensPerInterval

datatype outcome = Returned FunctionReturn | Threw thrown

text \<open>
  A step of the \<open>try\<close> block: the events it caused, and its value or the value it threw.
  \<open>and_then\<close> runs the rest of the block after a step that did not throw.
\<close>

type_synonym 'a step = "event list \<times> (thrown + 'a)"

definition and_then :: "'a step \<Rightarrow> ('a \<Rightarrow> 'b step) \<Rightarrow> 'b step" where
  "and_then m f =
     (case m of
        (es, Inl e) \<Rightarrow> (es, Inl e)
      | (es, Inr a) \<Rightarrow> (case f a of (es', r) \<Rightarrow> (es @ es', r)))"

definition await_notify :: "FunctionOptions \<Rightarrow> string \<Rightarrow> unit step" where
  "await_notify opts msg =
     ([Notify msg], case notify opts msg of None \<Rightarrow> Inr () | Some e \<Rightarrow> Inl e)"

definition call_getProvider :: "FunctionOptions \<Rightarrow> nat \<Rightarrow> provider step" where
  "call_getProvider opts chainId = ([GetProvider chainId], getProvider opts chainId)"

definition await_totalSupply :: "provider \<Rightarrow> u256 step" where
  "await_totalSupply p = ([ReadTotalSupply], read_totalSupply p)"

definition await_tokensPerInterval :: "provider \<Rightarrow> u256 step" where
  "await_tokensPerInterval p = ([ReadTokensPerInterval], read_tokensPerInterval p)"

text \<open>The two values computed on lines 57 and 60 of the source.\<close>

definition yearlyRewards :: "imported \<Rightarrow> u256 \<Rightarrow> nat" where
  "yearlyRewards c tokensPerInterval = unat tokensPerInterval * SECONDS_PER_YEAR c"

definition scaled_quotient :: "imported \<Rightarrow> u256 \<Rightarrow> u256 \<Rightarrow> thrown + nat" where
  "scaled_quotient c totalSupply tokensPerInterval =
     bigint_div (yearlyRewards c tokensPerInterval * PRECISION c * 100) (unat totalSupply)"

definition baseApr :: "imported \<Rightarrow> nat \<Rightarrow> number" where
  "baseApr c q = num_div (Number q) (Finite (of_nat (PRECISION c)))"

text \<open>
  The \<open>baseApr\<close> string of the result for a total supply that is not zero: line 66 on
  the value of line 60.
\<close>

definition reported_baseApr :: "imported \<Rightarrow> u256 \<Rightarrow> u256 \<Rightarrow> string" where
  "reported_baseApr c totalSupply tokensPerInterval =
     toFixed2 (baseApr c
       ((yearlyRewards c tokensPerInterval * PRECISION c * 100) div unat totalSupply))"

definition try_block :: "imported \<Rightarrow> FunctionOptions \<Rightarrow> nat \<Rightarrow> string step" where
  "try_block c opts chainId =
     and_then (call_getProvider opts chainId) (\<lambda>provider.
     and_then (await_notify opts ''Fetching total supply...'') (\<lambda>_.
     and_then (await_totalSupply provider) (\<lambda>totalSupply.
     and_then (await_notify opts ''Fetching tokens per interval...'') (\<lambda>_.
     and_then (await_tokensPerInterval provider) (\<lambda>tokensPerInterval.
     and_then ([], scaled_quotient c totalSupply tokensPerInterval) (\<lambda>q.
     and_then (await_notify opts ''APR calculation completed'') (\<lambda>_.
       ([], Inr (JSON_stringify
          [(''baseApr'', toFixed2 (baseApr c q)),
           (''yearlyRewards'', decimal (yearlyRewards c tokensPerInterval)),
           (''totalSupply'', decimal (unat totalSupply)),
           (''tokensPerInterval'', decimal (unat tokensPerInterval))])))))))))"

definition catch_block :: "thrown \<Rightarrow> FunctionReturn" where
  "catch_block error =
     (case error of
        Error message \<Rightarrow> toResult (''Failed to get ALP APR information: '' @ message) True
      | NonError \<Rightarrow> toResult ''Failed to get ALP APR information: Unknown error'' True)"

text \<open>
  The function: the events of the invocation, and the value returned or thrown. A chain id
  is falsy when there is none or when it is \<open>0\<close>.
\<close>

definition getALPAPR :: "imported \<Rightarrow> Props \<Rightarrow> FunctionOptions \<Rightarrow> event list \<times> outcome" where
  "getALPAPR c props opts =
     (case getChainFromName c (chainName props) of
        None \<Rightarrow> ([], Returned (toResult (''Network '' @ chainName props @ '' not supported'') True))
      | Some chainId \<Rightarrow>
          if chainId = 0 then
            ([], Returned (toResult (''Network '' @ chainName props @ '' not supported'') True))
          else if chainName props \<noteq> NETWORKS_SONIC c then
            ([], Returned (toResult ''This function is only supported on Sonic chain'' True))
          else
            (case notify opts ''Checking ALP APR information...'' of
               Some e \<Rightarrow> ([Notify ''Checking ALP APR information...''], Threw e)
             | None \<Rightarrow>
                 (case try_block c opts chainId of
                    (es, Inr json) \<Rightarrow>
                      (Notify ''Checking ALP APR information...'' # es,
                       Returned (toResult json False))
                  | (es, Inl error) \<Rightarrow>
                      (Notify ''Checking ALP APR information...'' # es,
                       Returned (catch_block error)))))"

section \<open>A concrete instance\<close>

text \<open>
  Values for the parameters, used to evaluate the function: the chain ids of two networks
  the SDK knows, \<open>SECONDS_PER_YEAR = 365 * 24 * 60 * 60\<close> and \<open>PRECISION = 1e30\<close>, whose
  double is \<open>1000000000000000019884624838656\<close>; a provider with fixed answers; options
  whose notifications resolve, and options whose notification sink rejects.
\<close>

definition example_chains :: "string \<Rightarrow> nat option" where
  "example_chains n = (if n = ''sonic'' then Some 146 else if n = ''ethereum'' then Some 1 else None)"

definition example_imported :: imported where
  "example_imported =
     \<lparr>getChainFromName = example_chains, NETWORKS_SONIC = ''sonic'',
      SECONDS_PER_YEAR = 31536000, PRECISION = 1000000000000000019884624838656\<rparr>"

definition example_provider :: "thrown + u256 \<Rightarrow> thrown + u256 \<Rightarrow> provider" where
  "example_provider s t = \<lparr>read_totalSupply = s, read_tokensPerInterval = t\<rparr>"

definition example_options :: "provider \<Rightarrow> FunctionOptions" where
  "example_options p = \<lparr>getProvider = (\<lambda>_. Inr p), notify = (\<lambda>_. None)\<rparr>"

definition rejecting_options :: FunctionOptions where
  "rejecting_options = \<lparr>getProvider = (\<lambda>_. Inl NonError), notify = (\<lambda>_. Some (Error ''sink closed''))\<rparr>"

section \<open>Properties of the rounding to a double\<close>

lemma pow2_less_iff: "power_int (2::rat) m < power_int 2 n \<longleftrightarrow> m < n"
proof
  assume "power_int (2::rat) m < power_int 2 n"
  show "m < n"
  proof (rule ccontr)
    assume "\<not> m < n"
    then have "power_int (2::rat) n \<le> power_int 2 m"
      by (intro power_int_increasing) auto
    with \<open>power_int (2::rat) m < power_int 2 n\<close> show False by simp
  qed
next
  assume "m < n"
  then show "power_int (2::rat) m < power_int 2 n"
    by (intro power_int_strict_increasing) auto
qed


lemma pow2_pos [simp]: "0 < power_int (2::rat) e"
  by (simp add: zero_less_power_int)

lemma bitlen_rat_bounds:
  assumes "0 < (a::int)"
  shows "power_int (2::rat) (bitlen a - 1) \<le> of_int a" and "of_int a < power_int (2::rat) (bitlen a)"
proof -
  from assms have ge1: "1 \<le> bitlen a" by (simp add: bitlen_alt_def)
  from bitlen_bounds [OF assms] have b: "2 ^ nat (bitlen a - 1) \<le> a" "a < 2 ^ nat (bitlen a)"
    by auto
  have "(of_int (2 ^ nat (bitlen a - 1)) :: rat) \<le> of_int a"
    using b(1) by (simp only: of_int_le_iff)
  then show "power_int (2::rat) (bitlen a - 1) \<le> of_int a"
    using ge1 by (simp add: power_int_def)
  have "(of_int a :: rat) < of_int (2 ^ nat (bitlen a))"
    using b(2) by (simp only: of_int_less_iff)
  then show "of_int a < power_int (2::rat) (bitlen a)"
    using ge1 by (simp add: power_int_def)
qed

lemma ilog2_bounds:
  assumes "0 < x"
  shows "power_int 2 (ilog2 x) \<le> x" and "x < power_int 2 (ilog2 x + 1)"
proof -
  obtain a b where q: "quotient_of x = (a, b)" by (cases "quotient_of x")
  then have b: "0 < b" and x: "x = of_int a / of_int b"
    by (simp_all add: quotient_of_denom_pos quotient_of_div)
  with assms have a: "0 < a" by (simp add: zero_less_divide_iff)
  define d where "d = bitlen a - bitlen b"
  have lo: "power_int 2 (d - 1) < x"
  proof -
    have "power_int (2::rat) (d - 1) * of_int b < power_int 2 (d - 1) * power_int 2 (bitlen b)"
      using bitlen_rat_bounds(2) [OF b] by simp
    also have "\<dots> = power_int 2 (bitlen a - 1)"
      by (simp add: d_def flip: power_int_add)
    also have "\<dots> \<le> of_int a" using bitlen_rat_bounds(1) [OF a] .
    finally show ?thesis using b by (simp add: x pos_less_divide_eq)
  qed
  have hi: "x < power_int 2 (d + 1)"
  proof -
    have "of_int a < power_int (2::rat) (bitlen a)" using bitlen_rat_bounds(2) [OF a] .
    also have "\<dots> = power_int 2 (d + 1) * power_int 2 (bitlen b - 1)"
      by (simp add: d_def flip: power_int_add)
    also have "\<dots> \<le> power_int 2 (d + 1) * of_int b"
      using bitlen_rat_bounds(1) [OF b] by simp
    finally show ?thesis using b by (simp add: x pos_divide_less_eq)
  qed
  have e: "ilog2 x = (if power_int 2 d \<le> x then d else d - 1)"
    by (simp add: ilog2_def q d_def Let_def)
  show "power_int 2 (ilog2 x) \<le> x" using lo by (simp add: e)
  show "x < power_int 2 (ilog2 x + 1)" using hi by (simp add: e not_le)
qed

lemma ilog2_unique:
  assumes "power_int 2 e \<le> x" and "x < power_int 2 (e + 1)"
  shows "ilog2 x = e"
proof -
  have pos: "0 < x" using assms(1) pow2_pos [of e] by (rule_tac less_le_trans)
  have "power_int (2::rat) (ilog2 x) < power_int 2 (e + 1)"
    using ilog2_bounds(1) [OF pos] assms(2) by simp
  then have 1: "ilog2 x < e + 1" by (simp add: pow2_less_iff)
  have "power_int (2::rat) e < power_int 2 (ilog2 x + 1)"
    using ilog2_bounds(2) [OF pos] assms(1) by simp
  then have 2: "e < ilog2 x + 1" by (simp add: pow2_less_iff)
  from 1 2 show ?thesis by simp
qed


lemma round_ties_even_cases:
  "round_ties_even x = \<lfloor>x\<rfloor> \<or> round_ties_even x = \<lfloor>x\<rfloor> + 1"
  by (simp add: round_ties_even_def Let_def)

lemma round_ties_even_of_int [simp]: "round_ties_even (of_int n) = n"
  by (simp add: round_ties_even_def)

lemma round_ties_even_mono:
  assumes "x \<le> y"
  shows "round_ties_even x \<le> round_ties_even y"
proof (cases "\<lfloor>x\<rfloor> = \<lfloor>y\<rfloor>")
  case True
  with assms show ?thesis
    by (auto simp: round_ties_even_def Let_def)
next
  case False
  with assms have "\<lfloor>x\<rfloor> + 1 \<le> \<lfloor>y\<rfloor>"
    using floor_mono [OF assms] by linarith
  with round_ties_even_cases [of x] round_ties_even_cases [of y] show ?thesis
    by linarith
qed


lemma round_ties_even_ge: "of_int n \<le> x \<Longrightarrow> n \<le> round_ties_even x"
  using round_ties_even_mono [of "of_int n" x] by simp


lemma ulp_pos [simp]: "0 < ulp x"
  by (simp add: ulp_def)


lemma binade_lower: "0 < x \<Longrightarrow> - 1022 < binade x \<Longrightarrow> power_int 2 (binade x) \<le> x"
  using ilog2_bounds(1) [of x] by (simp add: binade_def max_def split: if_splits)



lemma round_double_ge_grid:
  assumes "x \<noteq> 0" and "of_int n * ulp x \<le> x"
  shows "of_int n * ulp x \<le> round_double x"
proof -
  have "of_int n \<le> x / ulp x" using assms(2) by (simp add: pos_le_divide_eq)
  then have "n \<le> round_ties_even (x / ulp x)" by (rule round_ties_even_ge)
  then have "(of_int n :: rat) \<le> of_int (round_ties_even (x / ulp x))" by simp
  then show ?thesis using assms(1) by (simp add: round_double_def)
qed




lemma round_double_nonneg: "0 \<le> x \<Longrightarrow> 0 \<le> round_double x"
  using round_double_ge_grid [of x 0] by (cases "x = 0") (simp_all add: round_double_def)





lemma binade_eqI:
  assumes "power_int 2 b \<le> y" and "y < power_int 2 (b + 1)" and "- 1022 \<le> b"
  shows "binade y = b"
  using ilog2_unique [OF assms(1,2)] assms(3) by (simp add: binade_def)





lemma to_number_Finite_iff:
  "to_number x = Finite y \<longleftrightarrow> round_double x = y \<and> y < overflow_threshold"
  by (auto simp: to_number_def Let_def)

lemma to_number_cases: "to_number x = Infinity \<or> to_number x = Finite (round_double x)"
  by (simp add: to_number_def Let_def)





lemma num_le_not_NaN: "num_le a b \<Longrightarrow> a \<noteq> NaN \<and> b \<noteq> NaN"
  by (cases a; cases b) simp_all






lemma round_ties_even_error: "\<bar>of_int (round_ties_even x) - x\<bar> \<le> 1 / 2"
proof -
  have "of_int \<lfloor>x\<rfloor> \<le> x" "x < of_int \<lfloor>x\<rfloor> + 1" by linarith+
  then show ?thesis
    by (auto simp: round_ties_even_def Let_def abs_le_iff)
qed

lemma round_double_half_ulp: "\<bar>round_double x - x\<bar> \<le> ulp x / 2"
proof (cases "x = 0")
  case True
  then show ?thesis using ulp_pos [of 0] by (simp add: round_double_def less_imp_le)
next
  case False
  have "round_double x - x = (of_int (round_ties_even (x / ulp x)) - x / ulp x) * ulp x"
  proof -
    have "ulp x \<noteq> 0" by (simp add: ulp_def)
    then show ?thesis using False by (simp add: round_double_def left_diff_distrib)
  qed
  then have "\<bar>round_double x - x\<bar> = \<bar>of_int (round_ties_even (x / ulp x)) - x / ulp x\<bar> * \<bar>ulp x\<bar>"
    by (simp only: abs_mult)
  also have "\<bar>ulp x\<bar> = ulp x" by (rule abs_of_pos [OF ulp_pos])
  finally have "\<bar>round_double x - x\<bar> = \<bar>of_int (round_ties_even (x / ulp x)) - x / ulp x\<bar> * ulp x" .
  also have "\<dots> \<le> 1 / 2 * ulp x"
    using round_ties_even_error [of "x / ulp x"]
    by (intro mult_right_mono less_imp_le [OF ulp_pos])
  finally show ?thesis by simp
qed

lemma half_ulp_bound:
  assumes "0 < x"
  shows "ulp x / 2 \<le> x / 2 ^ 53 + 1 / 2 ^ 1075"
proof (cases "- 1022 < binade x")
  case True
  have "ulp x / 2 = power_int 2 (binade x) / 2 ^ 53"
    by (simp add: ulp_def power_int_diff)
  also have "\<dots> \<le> x / 2 ^ 53"
    using binade_lower [OF assms True] by (simp add: divide_right_mono)
  finally show ?thesis by simp
next
  case False
  then have "binade x = - 1022" by (simp add: binade_def)
  then have "ulp x / 2 = 1 / 2 ^ 1075"
    by (simp add: ulp_def power_int_minus_divide)
  then show ?thesis using assms by simp
qed

lemma round_double_error:
  assumes "0 \<le> x"
  shows "\<bar>round_double x - x\<bar> \<le> x / 2 ^ 53 + 1 / 2 ^ 1075"
proof (cases "x = 0")
  case True
  then show ?thesis by (simp add: round_double_def)
next
  case False
  with assms have "0 < x" by simp
  then show ?thesis
    using round_double_half_ulp [of x] half_ulp_bound [of x] by linarith
qed

section \<open>Properties of the printed numerals\<close>

lemma digit_cases:
  assumes "d < 10"
  shows "d \<in> {0, 1, 2, 3, 4, 5, 6, 7, 8, 9::nat}"
  using assms by auto

lemma is_digit_digit_char: "d < 10 \<Longrightarrow> is_digit (digit_char d)"
  by (simp add: is_digit_def digit_char_def del: set_simps)

lemma of_char_digit_char: "d < 10 \<Longrightarrow> of_char (digit_char d) = 48 + d"
  using digit_cases [of d] by (auto simp: digit_char_def)

lemma is_digit_range: "is_digit c \<Longrightarrow> c \<noteq> CHR ''.'' \<and> c \<noteq> CHR ''e''"
  by (auto simp: is_digit_def)

lemma decimal_digits: "list_all is_digit (decimal n)"
proof (induction n rule: decimal.induct)
  case (1 n)
  show ?case
  proof (cases "n < 10")
    case True
    then show ?thesis by (subst decimal.simps) (simp add: is_digit_digit_char)
  next
    case False
    then show ?thesis using 1 by (subst decimal.simps) (simp add: is_digit_digit_char)
  qed
qed

lemma decimal_nonempty: "decimal n \<noteq> []"
  by (subst decimal.simps) simp

lemma is_integer_numeral_decimal: "is_integer_numeral (decimal n)"
  by (simp add: is_integer_numeral_def decimal_digits decimal_nonempty)

lemma digits_value_Nil [simp]: "digits_value [] = 0"
  by (simp add: digits_value_def)

lemma digits_value_snoc: "digits_value (xs @ [c]) = 10 * digits_value xs + (of_char c - 48)"
  by (simp add: digits_value_def)

lemma digits_value_decimal: "digits_value (decimal n) = n"
proof (induction n rule: decimal.induct)
  case (1 n)
  show ?case
  proof (cases "n < 10")
    case True
    then show ?thesis
      by (subst decimal.simps) (simp add: digits_value_def of_char_digit_char)
  next
    case False
    then show ?thesis using 1
      by (subst decimal.simps) (simp add: digits_value_snoc of_char_digit_char)
  qed
qed

lemma digits_value_append:
  "digits_value (xs @ ys) = digits_value xs * 10 ^ length ys + digits_value ys"
proof (induction ys rule: rev_induct)
  case Nil
  then show ?case by simp
next
  case (snoc y ys)
  show ?case
    using snoc by (simp add: digits_value_snoc algebra_simps flip: append_assoc)
qed

lemma digits_value_zeros: "digits_value (replicate k CHR ''0'') = 0"
  by (induction k) (simp_all add: digits_value_def)

lemma digits_value_padded: "digits_value (replicate k CHR ''0'' @ xs) = digits_value xs"
  by (simp add: digits_value_append digits_value_zeros)

lemma is_digit_not_name: "is_digit c \<Longrightarrow> c \<noteq> CHR ''N'' \<and> c \<noteq> CHR ''I''"
  by (auto simp: is_digit_def)

lemma takeWhile_until:
  assumes "\<forall>x\<in>set a. x \<noteq> c"
  shows "takeWhile (\<lambda>x. x \<noteq> c) (a @ c # b) = a"
  using assms by (simp add: takeWhile_tail)

lemma digits_no_point: "list_all is_digit a \<Longrightarrow> \<forall>x\<in>set a. x \<noteq> CHR ''.''"
  by (auto simp: list_all_iff dest: is_digit_range)

lemma digits_no_e: "list_all is_digit a \<Longrightarrow> \<forall>x\<in>set a. x \<noteq> CHR ''e''"
  by (auto simp: list_all_iff dest: is_digit_range)

lemma digits_not_names:
  assumes "a \<noteq> []" and "list_all is_digit a"
  shows "a @ b \<noteq> ''NaN''" and "a @ b \<noteq> ''Infinity''"
proof -
  obtain x xs where a: "a = x # xs" using assms(1) by (cases a) auto
  then have "is_digit x" using assms(2) by simp
  then have "x \<noteq> CHR ''N''" "x \<noteq> CHR ''I''" using is_digit_not_name by blast+
  then show "a @ b \<noteq> ''NaN''" and "a @ b \<noteq> ''Infinity''" by (simp_all add: a)
qed

lemma numeral_value_parts:
  assumes "s \<noteq> ''NaN''" and "s \<noteq> ''Infinity''"
    and "takeWhile (\<lambda>c. c \<noteq> CHR ''e'') s = m"
    and "drop (length m + 2) s = x"
    and "takeWhile (\<lambda>c. c \<noteq> CHR ''.'') m = w"
    and "drop (length w + 1) m = f"
  shows "numeral_value s =
     Finite (of_nat (digits_value (w @ f)) * power_int 10 (int (digits_value x) - int (length f)))"
  unfolding numeral_value_def Let_def assms(3) assms(4) assms(5) assms(6)
  using assms(1,2) by (simp only: if_False)

lemma numeral_value_fixed:
  assumes "a \<noteq> []" and "list_all is_digit a" and "list_all is_digit b"
  shows "numeral_value (a @ CHR ''.'' # b) =
         Finite (of_nat (digits_value (a @ b)) * power_int 10 (- int (length b)))"
proof -
  let ?s = "a @ CHR ''.'' # b"
  have "\<forall>x\<in>set ?s. x \<noteq> CHR ''e''"
    using digits_no_e [OF assms(2)] digits_no_e [OF assms(3)] by auto
  then have m: "takeWhile (\<lambda>c. c \<noteq> CHR ''e'') ?s = ?s"
    by (simp only: takeWhile_eq_all_conv)
  have x: "drop (length ?s + 2) ?s = []" by simp
  have w: "takeWhile (\<lambda>c. c \<noteq> CHR ''.'') ?s = a"
    using digits_no_point [OF assms(2)] by (rule takeWhile_until)
  have f: "drop (length a + 1) ?s = b" by simp
  have "numeral_value ?s =
     Finite (of_nat (digits_value (a @ b)) * power_int 10 (int (digits_value []) - int (length b)))"
    using digits_not_names [OF assms(1,2)] m x w f by (rule numeral_value_parts)
  then show ?thesis by simp
qed

lemma numeral_value_exponential_form:
  assumes "list_all is_digit (d # ds)"
  shows "numeral_value ((if ds = [] then [d] else d # CHR ''.'' # ds) @ CHR ''e'' # CHR ''+'' # decimal k) =
         Finite (of_nat (digits_value (d # ds)) * power_int 10 (int k - int (length ds)))"
proof -
  let ?m = "if ds = [] then [d] else d # CHR ''.'' # ds"
  let ?t = "?m @ CHR ''e'' # CHR ''+'' # decimal k"
  have d: "is_digit d" and ds: "list_all is_digit ds" using assms by simp_all
  have "\<forall>c\<in>set ?m. c \<noteq> CHR ''e''"
    using digits_no_e [OF assms] by simp
  then have m: "takeWhile (\<lambda>c. c \<noteq> CHR ''e'') ?t = ?m"
    by (rule takeWhile_until)
  have x: "drop (length ?m + 2) ?t = decimal k" by simp
  have dp: "d \<noteq> CHR ''.''" using d is_digit_range by blast
  have w: "takeWhile (\<lambda>c. c \<noteq> CHR ''.'') ?m = [d]"
    using dp by simp
  have f: "drop (length [d] + 1) ?m = ds" by simp
  have "?m \<noteq> []" by simp
  have n: "?t \<noteq> ''NaN''" "?t \<noteq> ''Infinity''"
    using is_digit_not_name [OF d] by auto
  have "numeral_value ?t =
     Finite (of_nat (digits_value ([d] @ ds)) * power_int 10 (int (digits_value (decimal k)) - int (length ds)))"
    using n m x w f by (rule numeral_value_parts)
  then show ?thesis by (simp add: digits_value_decimal)
qed

lemma is_digit_zero: "is_digit CHR ''0''"
  by (simp add: is_digit_def)

lemma fixed2_shape:
  obtains a b where "fixed2 n = a @ CHR ''.'' # b" and "a \<noteq> []" and "list_all is_digit a"
    and "list_all is_digit b" and "length b = 2" and "digits_value (a @ b) = n"
proof -
  define m where "m = (if length (decimal n) \<le> 2
     then replicate (3 - length (decimal n)) CHR ''0'' @ decimal n else decimal n)"
  have len: "3 \<le> length m" by (simp add: m_def)
  have dig: "list_all is_digit m"
    using decimal_digits [of n] by (auto simp: m_def list_all_iff is_digit_zero)
  have v: "digits_value m = n"
    by (simp add: m_def digits_value_padded digits_value_decimal)
  let ?a = "take (length m - 2) m" and ?b = "drop (length m - 2) m"
  have "fixed2 n = ?a @ CHR ''.'' # ?b" by (simp add: fixed2_def m_def Let_def)
  moreover have "?a \<noteq> []" using len by auto
  moreover have "list_all is_digit ?a"
    using dig by (auto simp: list_all_iff dest: in_set_takeD)
  moreover have "list_all is_digit ?b"
    using dig by (auto simp: list_all_iff dest: in_set_dropD)
  moreover have "length ?b = 2" using len by simp
  moreover have "digits_value (?a @ ?b) = n" using v by simp
  ultimately show ?thesis by (rule that)
qed

lemma is_two_decimal_numeral_fixed2: "is_two_decimal_numeral (fixed2 n)"
proof -
  obtain a b where s: "fixed2 n = a @ CHR ''.'' # b" and a: "a \<noteq> []" "list_all is_digit a"
    and b: "list_all is_digit b" "length b = 2"
    by (rule fixed2_shape)
  have l: "length (fixed2 n) = length a + 3" using b(2) by (simp add: s)
  show ?thesis
    unfolding is_two_decimal_numeral_def l
    using a b by (simp add: s is_integer_numeral_def)
qed

lemma numeral_value_fixed2: "numeral_value (fixed2 n) = Finite (of_nat n / 100)"
proof -
  obtain a b where s: "fixed2 n = a @ CHR ''.'' # b" and a: "a \<noteq> []" "list_all is_digit a"
    and b: "list_all is_digit b" "length b = 2" and v: "digits_value (a @ b) = n"
    by (rule fixed2_shape)
  show ?thesis
    unfolding s numeral_value_fixed [OF a b(1)] v b(2) by (simp add: power_int_minus_divide)
qed

lemma strip_zeros:
  obtains z where "ds = rev (dropWhile (\<lambda>c. c = CHR ''0'') (rev ds)) @ replicate z CHR ''0''"
proof -
  let ?P = "\<lambda>c. c = CHR ''0''"
  have "rev ds = takeWhile ?P (rev ds) @ dropWhile ?P (rev ds)" by simp
  then have "rev (rev ds) = rev (takeWhile ?P (rev ds) @ dropWhile ?P (rev ds))" by simp
  then have 1: "ds = rev (dropWhile ?P (rev ds)) @ rev (takeWhile ?P (rev ds))"
    by (simp only: rev_rev_ident rev_append)
  have "\<forall>y\<in>set (rev (takeWhile ?P (rev ds))). y = CHR ''0''"
    by (auto dest: set_takeWhileD)
  then have "replicate (length (rev (takeWhile ?P (rev ds)))) CHR ''0'' = rev (takeWhile ?P (rev ds))"
    by (rule replicate_length_same)
  with 1 have "ds = rev (dropWhile ?P (rev ds)) @ replicate (length (rev (takeWhile ?P (rev ds)))) CHR ''0''"
    by simp
  then show ?thesis by (rule that)
qed

lemma numeral_value_exponential:
  assumes "0 < v"
  shows "numeral_value (exponential v) = Finite (of_nat v)"
proof -
  define s where "s = rev (dropWhile (\<lambda>c. c = CHR ''0'') (rev (decimal v)))"
  obtain z where z: "decimal v = s @ replicate z CHR ''0''"
    unfolding s_def by (rule strip_zeros)
  have v: "v = digits_value s * 10 ^ z"
    using digits_value_decimal [of v] by (simp add: z digits_value_append digits_value_zeros)
  with assms have "s \<noteq> []" by (auto intro: ccontr)
  then obtain d ds where s: "s = d # ds" by (cases s) auto
  have dig: "list_all is_digit (d # ds)"
    using decimal_digits [of v] by (simp add: z s)
  have "exponential v =
      (if length s = 1 then s else hd s # CHR ''.'' # tl s) @ ''e+'' @ decimal (length (decimal v) - 1)"
    by (simp add: exponential_def Let_def s_def)
  moreover have "length (decimal v) - 1 = length ds + z" by (simp add: z s)
  moreover have "(if length s = 1 then s else hd s # CHR ''.'' # tl s) =
      (if ds = [] then [d] else d # CHR ''.'' # ds)" by (simp add: s)
  ultimately have e: "exponential v =
      (if ds = [] then [d] else d # CHR ''.'' # ds) @ CHR ''e'' # CHR ''+'' # decimal (length ds + z)"
    by simp
  show ?thesis
    unfolding e numeral_value_exponential_form [OF dig]
    by (simp add: v s power_int_def)
qed

section \<open>Evaluating the rounding at a given input\<close>

lemma floor_rat_numeral_div: "\<lfloor>(numeral a :: rat) / numeral b\<rfloor> = numeral a div numeral b"
  using floor_divide_of_int_eq [of "numeral a" "numeral b", where ?'a = rat] by simp

lemma round_double_normal:
  assumes "power_int 2 e \<le> x" and "x < power_int 2 (e + 1)" and "- 1022 \<le> e"
  shows "round_double x = of_int (round_ties_even (x / power_int 2 (e - 52))) * power_int 2 (e - 52)"
proof -
  have "binade x = e" using assms by (rule binade_eqI)
  moreover have "0 < x" using pow2_pos [of e] assms(1) by (rule less_le_trans)
  ultimately show ?thesis by (simp add: round_double_def ulp_def)
qed

lemma to_number_normal:
  assumes "power_int 2 e \<le> x" and "x < power_int 2 (e + 1)" and "- 1022 \<le> e"
    and "of_int (round_ties_even (x / power_int 2 (e - 52))) * power_int 2 (e - 52) = y"
    and "y < overflow_threshold"
  shows "to_number x = Finite y"
  using round_double_normal [OF assms(1,2,3)] assms(4,5) by (simp add: to_number_Finite_iff)

lemmas eval_simps = round_ties_even_def Let_def overflow_threshold_def floor_rat_numeral_div

lemma to_number_1e21: "to_number (10 ^ 21) = Finite (10 ^ 21)"
  by (rule to_number_normal [where e = 69]) (simp_all add: eval_simps)

lemma shortest_from_exact:
  assumes "x = of_nat (s * 10 ^ Suc j)" and "to_number x = Finite x"
  shows "shortest_from x (Suc j) = s * 10 ^ Suc j"
proof -
  have "x / of_nat (10 ^ Suc j) = of_nat s"
    by (simp add: assms(1))
  then have fl: "nat \<lfloor>x / of_nat (10 ^ Suc j)\<rfloor> = s" and ce: "nat \<lceil>x / of_nat (10 ^ Suc j)\<rceil> = s"
    by simp_all
  have ok: "to_number (of_nat (s * 10 ^ Suc j)) = Finite x"
    using assms by simp
  show ?thesis
    unfolding shortest_from.simps Let_def fl ce ok by simp
qed

lemma shortest_decimal_1e21: "shortest_decimal (10 ^ 21) = 10 ^ 21"
proof -
  have "length (decimal (nat \<lfloor>10 ^ 21 :: rat\<rfloor>)) - 1 = Suc 20"
    by (simp add: decimal.simps)
  then have "shortest_decimal (10 ^ 21) = shortest_from (10 ^ 21) (Suc 20)"
    by (simp only: shortest_decimal_def)
  also have "\<dots> = 1 * 10 ^ Suc 20"
    using to_number_1e21 by (intro shortest_from_exact) simp_all
  finally show ?thesis by simp
qed

section \<open>The number printed by toFixed\<close>










text \<open>
  The two roundings of line 60: the conversion of the quotient to a double and the
  division of doubles each add a relative error of at most \<open>2^-53\<close> (and \<open>2^-1075\<close> in the
  subnormal range).
\<close>

lemma baseApr_Finite:
  assumes "0 < PRECISION c" and "baseApr c q = Finite y"
  shows "to_number (of_nat q) = Finite (round_double (of_nat q))"
    and "y = round_double (round_double (of_nat q) / of_nat (PRECISION c))"
    and "y < overflow_threshold"
proof -
  have p: "(of_nat (PRECISION c) :: rat) \<noteq> 0" using assms(1) by simp
  show n: "to_number (of_nat q) = Finite (round_double (of_nat q))"
    using assms(2) to_number_cases [of "of_nat q"] by (auto simp: baseApr_def Number_def)
  have "to_number (round_double (of_nat q) / of_nat (PRECISION c)) = Finite y"
    using assms(2) p by (simp add: baseApr_def Number_def n)
  then show "y = round_double (round_double (of_nat q) / of_nat (PRECISION c))"
    and "y < overflow_threshold"
    by (simp_all add: to_number_Finite_iff)
qed

lemma two_roundings:
  assumes "0 < P"
  shows "\<bar>round_double (round_double (of_nat q) / of_nat P) - of_nat q / of_nat P\<bar>
      \<le> (of_nat q / of_nat P) / 2 ^ 51 + 1 / 2 ^ 1073"
proof -
  define x :: rat where "x = of_nat q / of_nat P"
  define y where "y = round_double (round_double (of_nat q) / of_nat P)"
  define d :: rat where "d = 1 / 2 ^ 1075"
  define r where "r = round_double (of_nat q) / of_nat P"
  have d: "0 \<le> d" by (simp add: d_def)
  have P: "(1::rat) \<le> of_nat P" using assms(1) by simp
  have x: "0 \<le> x" by (simp add: x_def)
  have r: "0 \<le> r" by (simp add: r_def round_double_nonneg)
  have "\<bar>round_double (of_nat q) - of_nat q\<bar> \<le> of_nat q / 2 ^ 53 + d"
    unfolding d_def by (rule round_double_error) simp
  then have "\<bar>round_double (of_nat q) - of_nat q\<bar> / of_nat P \<le> (of_nat q / 2 ^ 53 + d) / of_nat P"
    by (rule divide_right_mono) simp
  moreover have "\<bar>round_double (of_nat q) - of_nat q\<bar> / of_nat P = \<bar>r - x\<bar>"
  proof -
    have "r - x = (round_double (of_nat q) - of_nat q) / of_nat P"
      by (simp add: r_def x_def diff_divide_distrib)
    then have "\<bar>r - x\<bar> = \<bar>round_double (of_nat q) - of_nat q\<bar> / \<bar>of_nat P\<bar>"
      by (simp only: abs_divide)
    then show ?thesis by simp
  qed
  moreover have "(of_nat q / 2 ^ 53 + d) / of_nat P = x / 2 ^ 53 + d / of_nat P"
    by (simp add: x_def add_divide_distrib)
  moreover have "d / of_nat P \<le> d"
  proof -
    have "d / of_nat P \<le> d / 1"
      using d P by (intro divide_left_mono) simp_all
    then show ?thesis by simp
  qed
  ultimately have rx: "\<bar>r - x\<bar> \<le> x / 2 ^ 53 + d" by linarith
  have yr: "\<bar>y - r\<bar> \<le> r / 2 ^ 53 + d"
    unfolding y_def r_def [symmetric] d_def using r by (rule round_double_error)
  have "\<bar>y - x\<bar> \<le> x / 2 ^ 51 + 4 * d"
    using rx yr x d by simp
  then show ?thesis by (simp add: d_def x_def y_def)
qed

section \<open>The rate at three inputs\<close>

lemma ceiling_rat_numeral_div:
  "\<lceil>(numeral a :: rat) / numeral b\<rceil> = - (- numeral a div numeral b)"
  using ceiling_divide_eq_div [of "numeral a" "numeral b", where ?'a = rat] by simp

lemma example_rate_a:
  "baseApr example_imported 3153600000000000062708152891185561 =
     Finite (6934839738708787 / 2199023255552)"
proof -
  have n: "Number 3153600000000000062708152891185561 = Finite 3153600000000000084775791065300992"
    unfolding Number_def
    by (rule to_number_normal [where e = 111]) (simp_all add: eval_simps)
  show ?thesis
    unfolding baseApr_def n
    by (simp add: example_imported_def) (rule to_number_normal [where e = 11]; simp add: eval_simps)
qed

lemma example_rate_b:
  "baseApr example_imported 1000000000000000019884624838656000000000000000000000 =
     Finite 1000000000000000000000"
proof -
  have n: "Number 1000000000000000019884624838656000000000000000000000 =
      Finite 999999999999999993220948674361627976461708441944064"
    unfolding Number_def
    by (rule to_number_normal [where e = 169]) (simp_all add: eval_simps)
  show ?thesis
    unfolding baseApr_def n
    by (simp add: example_imported_def) (rule to_number_normal [where e = 69]; simp add: eval_simps)
qed

lemma example_rate_c:
  "baseApr example_imported 100000000000000001988462483865600000000000000000000000 =
     Finite 99999999999999991611392"
proof -
  have n: "Number 100000000000000001988462483865600000000000000000000000 =
      Finite 99999999999999999322094867436162797646170844194406400"
    unfolding Number_def
    by (rule to_number_normal [where e = 176]) (simp_all add: eval_simps)
  show ?thesis
    unfolding baseApr_def n
    by (simp add: example_imported_def) (rule to_number_normal [where e = 76]; simp add: eval_simps)
qed

lemma toFixed2_a: "toFixed2 (Finite (6934839738708787 / 2199023255552)) = ''3153.60''"
  by (simp add: toFixed2_def hundredths_def fixed2_def Let_def decimal.simps digit_char_def
      floor_rat_numeral_div)

lemma toFixed2_b: "toFixed2 (Finite 1000000000000000000000) = ''1e+21''"
  using shortest_decimal_1e21
  by (simp add: toFixed2_def exponential_def Let_def decimal.simps digit_char_def)

lemma to_number_9e22: "to_number 90000000000000000000000 = Finite 89999999999999995805696"
  by (rule to_number_normal [where e = 76]) (simp_all add: eval_simps)

lemma to_number_1e23: "to_number 100000000000000000000000 = Finite 99999999999999991611392"
  by (rule to_number_normal [where e = 76]) (simp_all add: eval_simps)

lemma shortest_decimal_c: "shortest_decimal 99999999999999991611392 = 100000000000000000000000"
proof -
  have "length (decimal (nat \<lfloor>99999999999999991611392 :: rat\<rfloor>)) - 1 = Suc 21"
    by (simp add: decimal.simps)
  then have "shortest_decimal 99999999999999991611392 = shortest_from 99999999999999991611392 (Suc 21)"
    by (simp only: shortest_decimal_def)
  also have "\<dots> = 100000000000000000000000"
    unfolding shortest_from.simps Let_def
    by (simp add: floor_rat_numeral_div ceiling_rat_numeral_div to_number_9e22 to_number_1e23)
  finally show ?thesis .
qed

lemma toFixed2_c: "toFixed2 (Finite 99999999999999991611392) = ''1e+23''"
  by (simp add: toFixed2_def shortest_decimal_c exponential_def Let_def decimal.simps digit_char_def)

section \<open>Control flow\<close>

lemma and_then_Inl [simp]: "and_then (es, Inl e) f = (es, Inl e)"
  by (simp add: and_then_def)

lemma and_then_Inr [simp]: "and_then (es, Inr a) f = (es @ fst (f a), snd (f a))"
  by (simp add: and_then_def split: prod.splits)

lemmas step_defs = await_notify_def call_getProvider_def await_totalSupply_def
  await_tokensPerInterval_def

text \<open>
  Claim C9. The result does not depend on the account: two invocations that differ only
  in the account, with the same imports and the same options (so the same answers of the
  provider and of the notification sink), give the same events and the same outcome.
\<close>

theorem account_unused:
  "getALPAPR c \<lparr>chainName = n, account = a1\<rparr> opts = getALPAPR c \<lparr>chainName = n, account = a2\<rparr> opts"
  by (simp add: getALPAPR_def cong: option.case_cong if_cong)

text \<open>
  Claim C10. The first notification is awaited before the \<open>try\<close> block. On the supported
  network, when the notification sink rejects it, the invocation ends after that one
  event and the rejection is thrown to the caller: no result value is returned.
\<close>

theorem first_notification_escapes:
  assumes "getChainFromName c (chainName props) = Some chainId" and "chainId \<noteq> 0"
    and "chainName props = NETWORKS_SONIC c"
    and "notify opts ''Checking ALP APR information...'' = Some e"
  shows "getALPAPR c props opts = ([Notify ''Checking ALP APR information...''], Threw e)"
  using assms by (simp add: getALPAPR_def)

theorem first_notification_escapes_witness:
  "getALPAPR example_imported \<lparr>chainName = ''sonic'', account = ''0x1''\<rparr> rejecting_options
     = ([Notify ''Checking ALP APR information...''], Threw (Error ''sink closed''))"
  using first_notification_escapes [of example_imported "\<lparr>chainName = ''sonic'', account = ''0x1''\<rparr>" 146
      rejecting_options "Error ''sink closed''"]
  by (simp add: example_imported_def example_chains_def rejecting_options_def)

text \<open>
  Claim C4. On the supported network, once the first notification has resolved, the
  provider is resolved and the read of the total supply returns zero, the invocation
  returns a failure-tagged result with the prefix of the \<open>catch\<close> block, whatever the
  later notifications and the second read do: nothing is thrown to the caller. When they
  resolve and return, the BigInt division throws inside the \<open>try\<close> block, the message
  is that of its \<open>RangeError\<close>, and the completion notification is not sent.
\<close>

theorem zero_supply_generic_failure:
  assumes "getChainFromName c (chainName props) = Some chainId" and "chainId \<noteq> 0"
    and "chainName props = NETWORKS_SONIC c"
    and "notify opts ''Checking ALP APR information...'' = None"
    and "getProvider opts chainId = Inr p"
    and "read_totalSupply p = Inr 0"
  shows "(\<exists>message. snd (getALPAPR c props opts) =
            Returned (toResult (''Failed to get ALP APR information: '' @ message) True)) \<and>
     (notify opts ''Fetching total supply...'' = None \<and>
      notify opts ''Fetching tokens per interval...'' = None \<and>
      (\<exists>t. read_tokensPerInterval p = Inr t) \<longrightarrow>
        getALPAPR c props opts =
          ([Notify ''Checking ALP APR information...'', GetProvider chainId,
            Notify ''Fetching total supply...'', ReadTotalSupply,
            Notify ''Fetching tokens per interval...'', ReadTokensPerInterval],
           Returned (toResult ''Failed to get ALP APR information: Division by zero'' True)))"
proof (intro conjI impI)
  have "\<exists>e. snd (try_block c opts chainId) = Inl e"
    using assms(5,6)
    by (auto simp: try_block_def step_defs scaled_quotient_def bigint_div_def and_then_def
        split: option.splits sum.splits prod.splits)
  then obtain es e where "try_block c opts chainId = (es, Inl e)"
    by (cases "try_block c opts chainId") auto
  then have "snd (getALPAPR c props opts) = Returned (catch_block e)"
    using assms(1-4) by (simp add: getALPAPR_def)
  then show "\<exists>message. snd (getALPAPR c props opts) =
            Returned (toResult (''Failed to get ALP APR information: '' @ message) True)"
    by (cases e) (auto simp: catch_block_def)
next
  assume "notify opts ''Fetching total supply...'' = None \<and>
      notify opts ''Fetching tokens per interval...'' = None \<and>
      (\<exists>t. read_tokensPerInterval p = Inr t)"
  then show "getALPAPR c props opts =
          ([Notify ''Checking ALP APR information...'', GetProvider chainId,
            Notify ''Fetching total supply...'', ReadTotalSupply,
            Notify ''Fetching tokens per interval...'', ReadTokensPerInterval],
           Returned (toResult ''Failed to get ALP APR information: Division by zero'' True))"
    using assms
    by (auto simp: getALPAPR_def try_block_def step_defs scaled_quotient_def bigint_div_def
        catch_block_def)
qed

theorem zero_supply_generic_failure_witness:
  "getALPAPR example_imported \<lparr>chainName = ''sonic'', account = ''0x1''\<rparr>
      (example_options (example_provider (Inr 0) (Inr 7))) =
     ([Notify ''Checking ALP APR information...'', GetProvider 146,
       Notify ''Fetching total supply...'', ReadTotalSupply,
       Notify ''Fetching tokens per interval...'', ReadTokensPerInterval],
      Returned (toResult ''Failed to get ALP APR information: Division by zero'' True))"
  using zero_supply_generic_failure [of example_imported "\<lparr>chainName = ''sonic'', account = ''0x1''\<rparr>" 146
      "example_options (example_provider (Inr 0) (Inr 7))" "example_provider (Inr 0) (Inr 7)"]
  by (simp add: example_imported_def example_chains_def example_options_def example_provider_def)

lemma try_block_never_escapes:
  "getALPAPR c props opts = (es, Threw e) \<Longrightarrow> notify opts ''Checking ALP APR information...'' = Some e"
  by (auto simp: getALPAPR_def split: option.splits if_splits prod.splits sum.splits)

text \<open>
  Claim C3. When the read of the total supply throws, or it returns and the read of the
  tokens per interval throws, the invocation returns the failure-tagged result of the
  \<open>catch\<close> block, whose message ends with the message of the thrown error (with
  \<open>Unknown error\<close> when the thrown value is not an \<open>Error\<close>). For every input, an
  invocation that throws to its caller throws the rejection of the first notification:
  nothing thrown by the provider, a read or the arithmetic leaves the function.
\<close>

theorem read_exception_returned:
  assumes "getChainFromName c (chainName props) = Some chainId" and "chainId \<noteq> 0"
    and "chainName props = NETWORKS_SONIC c"
    and "notify opts ''Checking ALP APR information...'' = None"
    and "getProvider opts chainId = Inr p"
    and "notify opts ''Fetching total supply...'' = None"
    and "read_totalSupply p = Inl e \<or>
         (\<exists>s. read_totalSupply p = Inr s \<and> notify opts ''Fetching tokens per interval...'' = None \<and>
              read_tokensPerInterval p = Inl e)"
  shows "snd (getALPAPR c props opts) = Returned (catch_block e) \<and>
         catch_block e =
           toResult (''Failed to get ALP APR information: '' @
                       (case e of Error message \<Rightarrow> message | NonError \<Rightarrow> ''Unknown error'')) True \<and>
         (\<forall>props' opts' es' e'. getALPAPR c props' opts' = (es', Threw e') \<longrightarrow>
              notify opts' ''Checking ALP APR information...'' = Some e')"
proof (intro conjI allI impI)
  show "snd (getALPAPR c props opts) = Returned (catch_block e)"
    using assms by (auto simp: getALPAPR_def try_block_def step_defs)
  show "catch_block e =
           toResult (''Failed to get ALP APR information: '' @
                       (case e of Error message \<Rightarrow> message | NonError \<Rightarrow> ''Unknown error'')) True"
    by (simp add: catch_block_def split: thrown.splits)
  show "notify opts' ''Checking ALP APR information...'' = Some e'"
    if "getALPAPR c props' opts' = (es', Threw e')" for props' opts' es' e'
    using that by (rule try_block_never_escapes)
qed

theorem read_exception_returned_witness:
  "snd (getALPAPR example_imported \<lparr>chainName = ''sonic'', account = ''0x1''\<rparr>
      (example_options (example_provider (Inr 5) (Inl (Error ''execution reverted''))))) =
     Returned (toResult ''Failed to get ALP APR information: execution reverted'' True)"
  using read_exception_returned [of example_imported "\<lparr>chainName = ''sonic'', account = ''0x1''\<rparr>" 146
      "example_options (example_provider (Inr 5) (Inl (Error ''execution reverted'')))"
      "example_provider (Inr 5) (Inl (Error ''execution reverted''))" "Error ''execution reverted''"]
  by (simp add: example_imported_def example_chains_def example_options_def example_provider_def)







text \<open>
  Claim C2, amended. For a network name that is not the supported one, the function
  returns a failure-tagged result with no event at all: no notification, no resolution
  of a provider, no read. The message names the network when \<open>getChainFromName\<close> gives no
  chain id for it (or the id \<open>0\<close>), and such a message contains the name. When the name
  resolves to a chain, the message is the fixed text that names the Sonic chain.
\<close>

theorem unsupported_network_fails:
  assumes "chainName props \<noteq> NETWORKS_SONIC c"
  shows "getALPAPR c props opts =
     ([], Returned (toResult
        (case getChainFromName c (chainName props) of
           None \<Rightarrow> ''Network '' @ chainName props @ '' not supported''
         | Some chainId \<Rightarrow>
             if chainId = 0 then ''Network '' @ chainName props @ '' not supported''
             else ''This function is only supported on Sonic chain'') True)) \<and>
     sublist (chainName props) (''Network '' @ chainName props @ '' not supported'')"
proof
  show "sublist (chainName props) (''Network '' @ chainName props @ '' not supported'')"
    by (rule sublist_appendI)
qed (use assms in \<open>simp add: getALPAPR_def split: option.splits\<close>)

theorem unsupported_network_fails_witness:
  "getALPAPR example_imported \<lparr>chainName = ''moonbeam'', account = ''0x1''\<rparr>
      (example_options (example_provider (Inr 1) (Inr 1))) =
     ([], Returned (toResult ''Network moonbeam not supported'' True))"
  using unsupported_network_fails [of "\<lparr>chainName = ''moonbeam'', account = ''0x1''\<rparr>" example_imported
      "example_options (example_provider (Inr 1) (Inr 1))"]
  by (simp add: example_imported_def example_chains_def)

text \<open>
  Claim C2 as stated fails for a network that the SDK knows and the function does not
  support: the message for \<open>ethereum\<close> does not mention \<open>ethereum\<close>.
\<close>

theorem resolved_network_message_counterexample:
  "''ethereum'' \<noteq> NETWORKS_SONIC example_imported \<and>
   getALPAPR example_imported \<lparr>chainName = ''ethereum'', account = ''0x1''\<rparr>
      (example_options (example_provider (Inr 1) (Inr 1))) =
     ([], Returned (toResult ''This function is only supported on Sonic chain'' True)) \<and>
   \<not> sublist ''ethereum'' ''This function is only supported on Sonic chain''"
  by (simp add: getALPAPR_def example_imported_def example_chains_def) code_simp

section \<open>The computed rate\<close>

lemma quotient_bounds:
  assumes "0 < P" and "0 < n"
  shows "(of_nat ((a * P) div n) / of_nat P :: rat) \<le> of_nat a / of_nat n"
    and "(of_nat a / of_nat n :: rat) - of_nat ((a * P) div n) / of_nat P < 1 / of_nat P"
proof -
  define q where "q = (a * P) div n"
  have "q * n \<le> a * P" by (simp add: q_def)
  then have "(of_nat (q * n) :: rat) \<le> of_nat (a * P)" by (simp only: of_nat_le_iff)
  then have "(of_nat q / of_nat P :: rat) \<le> of_nat a / of_nat n"
    using assms by (simp add: field_simps)
  then show "(of_nat ((a * P) div n) / of_nat P :: rat) \<le> of_nat a / of_nat n"
    unfolding q_def .
  have "a * P < (q + 1) * n"
    using assms(2) dividend_less_times_div [of n "a * P"] by (simp add: q_def mult.commute)
  then have "(of_nat (a * P) :: rat) < of_nat ((q + 1) * n)" by (simp only: of_nat_less_iff)
  then have "(of_nat a / of_nat n :: rat) < (of_nat q + 1) / of_nat P"
    using assms by (simp add: field_simps)
  then have "(of_nat a / of_nat n :: rat) - of_nat q / of_nat P < 1 / of_nat P"
    by (simp add: add_divide_distrib)
  then show "(of_nat a / of_nat n :: rat) - of_nat ((a * P) div n) / of_nat P < 1 / of_nat P"
    unfolding q_def .
qed

lemma baseApr_below:
  assumes "0 < PRECISION c" and "PRECISION c \<le> 10 ^ 200" and "s \<noteq> 0"
    and "4 * (yearlyRewards c t * 100) < 10 ^ 21 * unat s"
  shows "\<exists>d. baseApr c ((yearlyRewards c t * PRECISION c * 100) div unat s) = Finite d \<and> d < 10 ^ 21"
proof -
  define a where "a = yearlyRewards c t * 100"
  define P where "P = PRECISION c"
  define n where "n = unat s"
  define q where "q = (a * P) div n"
  define x :: rat where "x = of_nat q / of_nat P"
  define f where "f = round_double (of_nat q)"
  define y where "y = round_double (f / of_nat P)"
  have n: "0 < n" using assms(3) by (simp add: n_def unat_gt_0)
  have P: "0 < P" using assms(1) by (simp add: P_def)
  have q: "(yearlyRewards c t * PRECISION c * 100) div unat s = q"
    by (simp add: q_def a_def P_def n_def mult_ac)
  have "(of_nat (4 * a) :: rat) < of_nat (10 ^ 21 * n)"
    using assms(4) unfolding a_def n_def by (simp only: of_nat_less_iff)
  then have a: "(of_nat a / of_nat n :: rat) < 10 ^ 21 / 4"
    using n by (simp add: field_simps)
  have x: "x < 10 ^ 21 / 4" "0 \<le> x"
    using quotient_bounds(1) [OF P n, of a] a by (simp_all add: x_def q_def)
  have "of_nat q = x * of_nat P" using P by (simp add: x_def)
  also have "\<dots> \<le> (10 ^ 21 / 4) * 10 ^ 200"
  proof (intro mult_mono)
    show "(of_nat P :: rat) \<le> 10 ^ 200"
      using assms(2) unfolding P_def by (metis of_nat_le_iff of_nat_numeral of_nat_power)
  qed (use x in simp_all)
  finally have qb: "(of_nat q :: rat) \<le> 10 ^ 221 / 4" by simp
  have "\<bar>f - of_nat q\<bar> \<le> of_nat q / 2 ^ 53 + 1 / 2 ^ 1075"
    unfolding f_def by (rule round_double_error) simp
  then have "f \<le> 10 ^ 221" using qb by simp
  then have "f < overflow_threshold" by (simp add: overflow_threshold_def)
  then have N: "Number q = Finite f" by (simp add: Number_def to_number_Finite_iff f_def)
  have "\<bar>y - x\<bar> \<le> x / 2 ^ 51 + 1 / 2 ^ 1073"
    unfolding y_def f_def x_def using P by (rule two_roundings)
  then have y: "y < 10 ^ 21" using x by simp
  then have "y < overflow_threshold" by (simp add: overflow_threshold_def)
  then have "baseApr c q = Finite y"
    using P by (simp add: baseApr_def N to_number_Finite_iff y_def flip: P_def)
  with y show ?thesis unfolding q by blast
qed

text \<open>
  The success path: the seven events, and the result with the \<open>baseApr\<close> string
  \<open>reported_baseApr\<close> of the two values read.
\<close>

lemma getALPAPR_success:
  assumes "getChainFromName c (chainName props) = Some chainId" and "chainId \<noteq> 0"
    and "chainName props = NETWORKS_SONIC c"
    and "\<And>m. notify opts m = None"
    and "getProvider opts chainId = Inr p"
    and "read_totalSupply p = Inr s" and "read_tokensPerInterval p = Inr t"
    and "s \<noteq> 0"
  shows "getALPAPR c props opts =
     ([Notify ''Checking ALP APR information...'', GetProvider chainId,
       Notify ''Fetching total supply...'', ReadTotalSupply,
       Notify ''Fetching tokens per interval...'', ReadTokensPerInterval,
       Notify ''APR calculation completed''],
      Returned (toResult (JSON_stringify
        [(''baseApr'', reported_baseApr c s t),
         (''yearlyRewards'', decimal (yearlyRewards c t)),
         (''totalSupply'', decimal (unat s)),
         (''tokensPerInterval'', decimal (unat t))]) False))"
proof -
  have "unat s \<noteq> 0" using assms(8) by (simp add: unat_eq_0)
  then show ?thesis
    using assms(1-7)
    by (simp add: getALPAPR_def try_block_def step_defs scaled_quotient_def bigint_div_def
        reported_baseApr_def)
qed

text \<open>
  Claim C1, amended. On the supported network, when the notifications resolve, both
  reads return and the total supply is not zero, the function returns a success result
  after the seven events. Its \<open>yearlyRewards\<close> is the decimal numeral of
  \<open>tokensPerInterval \<times> SECONDS_PER_YEAR\<close>, and its \<open>baseApr\<close> is what \<open>toFixed(2)\<close> prints
  for the double \<open>Number((yearlyRewards \<times> PRECISION \<times> 100) / totalSupply) / PRECISION\<close>, the
  quotient being the truncating BigInt division and the scaling down a division of
  doubles. For a double below \<open>10^21\<close> that string is the double rounded to the nearest
  hundredth (a tie goes up), printed with two decimals. The witness evaluates the case
  \<open>totalSupply = 1000000\<close>, \<open>tokensPerInterval = 1\<close> for 31536000 seconds per year and
  the precision scalar \<open>1e30\<close>: \<open>yearlyRewards\<close> is \<open>31536000\<close> and \<open>baseApr\<close> is
  \<open>3153.60\<close>, which is also \<open>yearlyRewards \<times> 100 / totalSupply\<close> rounded to two decimals.
\<close>

theorem success_result_formula:
  assumes "getChainFromName c (chainName props) = Some chainId" and "chainId \<noteq> 0"
    and "chainName props = NETWORKS_SONIC c"
    and "\<And>m. notify opts m = None"
    and "getProvider opts chainId = Inr p"
    and "read_totalSupply p = Inr s" and "read_tokensPerInterval p = Inr t"
    and "s \<noteq> 0"
  shows "getALPAPR c props opts =
     ([Notify ''Checking ALP APR information...'', GetProvider chainId,
       Notify ''Fetching total supply...'', ReadTotalSupply,
       Notify ''Fetching tokens per interval...'', ReadTokensPerInterval,
       Notify ''APR calculation completed''],
      Returned (toResult (JSON_stringify
        [(''baseApr'',
            toFixed2 (num_div
              (Number ((unat t * SECONDS_PER_YEAR c * PRECISION c * 100) div unat s))
              (Finite (of_nat (PRECISION c))))),
         (''yearlyRewards'', decimal (unat t * SECONDS_PER_YEAR c)),
         (''totalSupply'', decimal (unat s)),
         (''tokensPerInterval'', decimal (unat t))]) False)) \<and>
     (\<forall>d. num_div
              (Number ((unat t * SECONDS_PER_YEAR c * PRECISION c * 100) div unat s))
              (Finite (of_nat (PRECISION c))) = Finite d \<and> d < 10 ^ 21 \<longrightarrow>
        toFixed2 (Finite d) = fixed2 (nat \<lfloor>d * 100 + 1 / 2\<rfloor>) \<and>
        is_two_decimal_numeral (fixed2 (nat \<lfloor>d * 100 + 1 / 2\<rfloor>)) \<and>
        numeral_value (fixed2 (nat \<lfloor>d * 100 + 1 / 2\<rfloor>)) =
          Finite (of_nat (nat \<lfloor>d * 100 + 1 / 2\<rfloor>) / 100))"
proof (intro conjI allI impI)
  show "getALPAPR c props opts =
     ([Notify ''Checking ALP APR information...'', GetProvider chainId,
       Notify ''Fetching total supply...'', ReadTotalSupply,
       Notify ''Fetching tokens per interval...'', ReadTokensPerInterval,
       Notify ''APR calculation completed''],
      Returned (toResult (JSON_stringify
        [(''baseApr'',
            toFixed2 (num_div
              (Number ((unat t * SECONDS_PER_YEAR c * PRECISION c * 100) div unat s))
              (Finite (of_nat (PRECISION c))))),
         (''yearlyRewards'', decimal (unat t * SECONDS_PER_YEAR c)),
         (''totalSupply'', decimal (unat s)),
         (''tokensPerInterval'', decimal (unat t))]) False))"
    using getALPAPR_success [OF assms]
    by (simp add: reported_baseApr_def baseApr_def yearlyRewards_def)
  fix d :: rat
  assume "num_div
              (Number ((unat t * SECONDS_PER_YEAR c * PRECISION c * 100) div unat s))
              (Finite (of_nat (PRECISION c))) = Finite d \<and> d < 10 ^ 21"
  then show "toFixed2 (Finite d) = fixed2 (nat \<lfloor>d * 100 + 1 / 2\<rfloor>)"
    by (simp add: toFixed2_def hundredths_def)
  show "is_two_decimal_numeral (fixed2 (nat \<lfloor>d * 100 + 1 / 2\<rfloor>))"
    by (rule is_two_decimal_numeral_fixed2)
  show "numeral_value (fixed2 (nat \<lfloor>d * 100 + 1 / 2\<rfloor>)) =
          Finite (of_nat (nat \<lfloor>d * 100 + 1 / 2\<rfloor>) / 100)"
    by (rule numeral_value_fixed2)
qed

theorem success_result_formula_witness:
  "getALPAPR example_imported \<lparr>chainName = ''sonic'', account = ''0x1''\<rparr>
      (example_options (example_provider (Inr 1000000) (Inr 1))) =
     ([Notify ''Checking ALP APR information...'', GetProvider 146,
       Notify ''Fetching total supply...'', ReadTotalSupply,
       Notify ''Fetching tokens per interval...'', ReadTokensPerInterval,
       Notify ''APR calculation completed''],
      Returned (toResult (JSON_stringify
        [(''baseApr'', ''3153.60''), (''yearlyRewards'', ''31536000''),
         (''totalSupply'', ''1000000''), (''tokensPerInterval'', ''1'')]) False)) \<and>
   fixed2 (hundredths (of_nat (31536000 * 100) / of_nat 1000000)) = ''3153.60''"
proof
  have "toFixed2 (baseApr example_imported 3153600000000000062708152891185561) = ''3153.60''"
    by (simp only: example_rate_a toFixed2_a)
  then have r: "toFixed2 (num_div (Number 3153600000000000062708152891185561)
      (Finite 1000000000000000019884624838656)) = ''3153.60''"
    by (simp add: baseApr_def example_imported_def)
  have y: "decimal 31536000 = ''31536000''" "decimal 1000000 = ''1000000''" "decimal (Suc 0) = ''1''"
    by (simp_all add: decimal.simps digit_char_def)
  show "getALPAPR example_imported \<lparr>chainName = ''sonic'', account = ''0x1''\<rparr>
      (example_options (example_provider (Inr 1000000) (Inr 1))) =
     ([Notify ''Checking ALP APR information...'', GetProvider 146,
       Notify ''Fetching total supply...'', ReadTotalSupply,
       Notify ''Fetching tokens per interval...'', ReadTokensPerInterval,
       Notify ''APR calculation completed''],
      Returned (toResult (JSON_stringify
        [(''baseApr'', ''3153.60''), (''yearlyRewards'', ''31536000''),
         (''totalSupply'', ''1000000''), (''tokensPerInterval'', ''1'')]) False))"
    using success_result_formula [of example_imported "\<lparr>chainName = ''sonic'', account = ''0x1''\<rparr>" 146
        "example_options (example_provider (Inr 1000000) (Inr 1))"
        "example_provider (Inr 1000000) (Inr 1)" 1000000 1]
    by (simp add: example_imported_def example_chains_def example_options_def example_provider_def r y)
  show "fixed2 (hundredths (of_nat (31536000 * 100) / of_nat 1000000)) = ''3153.60''"
    by (simp add: hundredths_def fixed2_def Let_def decimal.simps digit_char_def floor_rat_numeral_div)
qed

lemma example_success:
  "getALPAPR example_imported \<lparr>chainName = ''sonic'', account = ''0x1''\<rparr>
      (example_options (example_provider (Inr s) (Inr t))) =
   (if s = 0 then
     ([Notify ''Checking ALP APR information...'', GetProvider 146,
       Notify ''Fetching total supply...'', ReadTotalSupply,
       Notify ''Fetching tokens per interval...'', ReadTokensPerInterval],
      Returned (toResult ''Failed to get ALP APR information: Division by zero'' True))
    else
     ([Notify ''Checking ALP APR information...'', GetProvider 146,
       Notify ''Fetching total supply...'', ReadTotalSupply,
       Notify ''Fetching tokens per interval...'', ReadTokensPerInterval,
       Notify ''APR calculation completed''],
      Returned (toResult (JSON_stringify
        [(''baseApr'', reported_baseApr example_imported s t),
         (''yearlyRewards'', decimal (yearlyRewards example_imported t)),
         (''totalSupply'', decimal (unat s)),
         (''tokensPerInterval'', decimal (unat t))]) False)))"
  by (simp add: getALPAPR_def try_block_def step_defs scaled_quotient_def bigint_div_def
      catch_block_def reported_baseApr_def unat_eq_0
      example_imported_def example_chains_def example_options_def example_provider_def)

text \<open>
  Claim C1 as stated fails at \<open>10^21\<close> and above, where \<open>toFixed\<close> prints the shortest
  decimal that identifies the double, in exponential notation. For
  \<open>totalSupply = 31536\<close> and \<open>tokensPerInterval = 10^18 - 1\<close> the result holds
  \<open>1e+23\<close>, that is \<open>10^23\<close>; the double scaled back down is
  \<open>99999999999999991611392\<close> and the exact rate is \<open>99999999999999999900000\<close>, and
  neither, rounded to two decimals, is what the result holds.
\<close>

theorem exponential_rate_counterexample:
  "getALPAPR example_imported \<lparr>chainName = ''sonic'', account = ''0x1''\<rparr>
      (example_options (example_provider (Inr 31536) (Inr 999999999999999999))) =
     ([Notify ''Checking ALP APR information...'', GetProvider 146,
       Notify ''Fetching total supply...'', ReadTotalSupply,
       Notify ''Fetching tokens per interval...'', ReadTokensPerInterval,
       Notify ''APR calculation completed''],
      Returned (toResult (JSON_stringify
        [(''baseApr'', ''1e+23''), (''yearlyRewards'', ''31535999999999999968464000''),
         (''totalSupply'', ''31536''), (''tokensPerInterval'', ''999999999999999999'')]) False)) \<and>
   numeral_value ''1e+23'' = Finite 100000000000000000000000 \<and>
   baseApr example_imported
     ((unat (999999999999999999 :: u256) * SECONDS_PER_YEAR example_imported *
         PRECISION example_imported * 100) div unat (31536 :: u256)) =
     Finite 99999999999999991611392 \<and>
   fixed2 (hundredths 99999999999999991611392) = ''99999999999999991611392.00'' \<and>
   fixed2 (hundredths (of_nat (unat (999999999999999999 :: u256) * SECONDS_PER_YEAR example_imported * 100)
      / of_nat (unat (31536 :: u256)))) = ''99999999999999999900000.00''"
proof (intro conjI)
  have n: "Number 100000000000000001888462483865599998011537516134400000 =
      Finite 99999999999999999322094867436162797646170844194406400"
    unfolding Number_def
    by (rule to_number_normal [where e = 176]) (simp_all add: eval_simps)
  have b: "baseApr example_imported 100000000000000001888462483865599998011537516134400000 =
      Finite 99999999999999991611392"
    unfolding baseApr_def n
    by (simp add: example_imported_def) (rule to_number_normal [where e = 76]; simp add: eval_simps)
  then show "baseApr example_imported
     ((unat (999999999999999999 :: u256) * SECONDS_PER_YEAR example_imported *
         PRECISION example_imported * 100) div unat (31536 :: u256)) =
     Finite 99999999999999991611392"
    by (simp add: example_imported_def)
  have r: "reported_baseApr example_imported 31536 999999999999999999 = ''1e+23''"
    using b by (simp add: reported_baseApr_def yearlyRewards_def example_imported_def toFixed2_c)
  have y: "decimal 31535999999999999968464000 = ''31535999999999999968464000''"
    "decimal 31536 = ''31536''" "decimal 999999999999999999 = ''999999999999999999''"
    by (simp_all add: decimal.simps digit_char_def)
  show "getALPAPR example_imported \<lparr>chainName = ''sonic'', account = ''0x1''\<rparr>
      (example_options (example_provider (Inr 31536) (Inr 999999999999999999))) =
     ([Notify ''Checking ALP APR information...'', GetProvider 146,
       Notify ''Fetching total supply...'', ReadTotalSupply,
       Notify ''Fetching tokens per interval...'', ReadTokensPerInterval,
       Notify ''APR calculation completed''],
      Returned (toResult (JSON_stringify
        [(''baseApr'', ''1e+23''), (''yearlyRewards'', ''31535999999999999968464000''),
         (''totalSupply'', ''31536''), (''tokensPerInterval'', ''999999999999999999'')]) False))"
    by (simp add: example_success r) (simp add: yearlyRewards_def example_imported_def y)
  have "numeral_value (exponential 100000000000000000000000) = Finite (of_nat 100000000000000000000000)"
    by (rule numeral_value_exponential) simp
  moreover have "exponential 100000000000000000000000 = ''1e+23''"
    by (simp add: exponential_def Let_def decimal.simps digit_char_def)
  ultimately show "numeral_value ''1e+23'' = Finite 100000000000000000000000" by simp
  show "fixed2 (hundredths 99999999999999991611392) = ''99999999999999991611392.00''"
    by (simp add: hundredths_def fixed2_def Let_def decimal.simps digit_char_def floor_rat_numeral_div)
  show "fixed2 (hundredths (of_nat (unat (999999999999999999 :: u256) * SECONDS_PER_YEAR example_imported * 100)
      / of_nat (unat (31536 :: u256)))) = ''99999999999999999900000.00''"
    by (simp add: example_imported_def hundredths_def fixed2_def Let_def decimal.simps digit_char_def floor_rat_numeral_div)
qed

text \<open>
  A success result comes from the end of the \<open>try\<close> block: both reads have returned and
  the total supply is not zero.
\<close>

lemma try_block_Inr:
  assumes "try_block c opts chainId = (es, Inr json)"
  shows "\<exists>s t. s \<noteq> 0 \<and>
     json = JSON_stringify
       [(''baseApr'', reported_baseApr c s t),
        (''yearlyRewards'', decimal (yearlyRewards c t)),
        (''totalSupply'', decimal (unat s)),
        (''tokensPerInterval'', decimal (unat t))]"
  using assms
  by (auto simp: try_block_def step_defs and_then_def scaled_quotient_def bigint_div_def
      reported_baseApr_def unat_eq_0
      split: sum.splits option.splits prod.splits if_splits)

lemma success_outcome:
  assumes "snd (getALPAPR c props opts) = Returned (toResult json False)"
  shows "\<exists>chainId es. try_block c opts chainId = (es, Inr json)"
  using assms
  by (auto simp: getALPAPR_def catch_block_def
      split: option.splits if_splits prod.splits sum.splits thrown.splits)

text \<open>
  Claim C5, amended. Every success result is the JSON text of four strings, for a total
  supply \<open>s\<close> that is not zero and a \<open>tokensPerInterval\<close> \<open>t\<close>. The strings
  \<open>yearlyRewards\<close>, \<open>totalSupply\<close> and \<open>tokensPerInterval\<close> are integer numerals: digits
  only, at least one. The string \<open>baseApr\<close> is an integer numeral, a point and two digits
  whenever the computed double is finite and below \<open>10^21\<close>; it is so in particular when
  the precision scalar is positive and at most \<open>10^200\<close> and four times the exact rate is
  below \<open>10^21\<close>.
\<close>

theorem result_numerals:
  assumes "snd (getALPAPR c props opts) = Returned (toResult json False)"
  shows "\<exists>s t. s \<noteq> 0 \<and>
     json = JSON_stringify
       [(''baseApr'', reported_baseApr c s t),
        (''yearlyRewards'', decimal (yearlyRewards c t)),
        (''totalSupply'', decimal (unat s)),
        (''tokensPerInterval'', decimal (unat t))] \<and>
     is_integer_numeral (decimal (yearlyRewards c t)) \<and>
     is_integer_numeral (decimal (unat s)) \<and>
     is_integer_numeral (decimal (unat t)) \<and>
     (\<forall>d. baseApr c ((yearlyRewards c t * PRECISION c * 100) div unat s) = Finite d \<and> d < 10 ^ 21
          \<longrightarrow> is_two_decimal_numeral (reported_baseApr c s t)) \<and>
     (0 < PRECISION c \<and> PRECISION c \<le> 10 ^ 200 \<and>
      4 * (yearlyRewards c t * 100) < 10 ^ 21 * unat s
          \<longrightarrow> is_two_decimal_numeral (reported_baseApr c s t))"
proof -
  obtain s t where s: "s \<noteq> 0"
    and json: "json = JSON_stringify
       [(''baseApr'', reported_baseApr c s t),
        (''yearlyRewards'', decimal (yearlyRewards c t)),
        (''totalSupply'', decimal (unat s)),
        (''tokensPerInterval'', decimal (unat t))]"
    using success_outcome [OF assms] try_block_Inr by blast
  have below: "is_two_decimal_numeral (reported_baseApr c s t)"
    if "baseApr c ((yearlyRewards c t * PRECISION c * 100) div unat s) = Finite d \<and> d < 10 ^ 21" for d
    using that by (simp add: reported_baseApr_def toFixed2_def is_two_decimal_numeral_fixed2)
  have small: "is_two_decimal_numeral (reported_baseApr c s t)"
    if "0 < PRECISION c \<and> PRECISION c \<le> 10 ^ 200 \<and>
      4 * (yearlyRewards c t * 100) < 10 ^ 21 * unat s"
  proof -
    from that s obtain d where
      "baseApr c ((yearlyRewards c t * PRECISION c * 100) div unat s) = Finite d \<and> d < 10 ^ 21"
      using baseApr_below [of c s t] by blast
    then show ?thesis by (rule below)
  qed
  show ?thesis
  proof (intro exI conjI allI impI)
    show "s \<noteq> 0" by (rule s)
    show "json = JSON_stringify
       [(''baseApr'', reported_baseApr c s t),
        (''yearlyRewards'', decimal (yearlyRewards c t)),
        (''totalSupply'', decimal (unat s)),
        (''tokensPerInterval'', decimal (unat t))]" by (rule json)
  qed (rule is_integer_numeral_decimal below small; assumption)+
qed

theorem result_numerals_witness:
  "(\<exists>s t. s \<noteq> 0 \<and>
     JSON_stringify
        [(''baseApr'', ''3153.60''), (''yearlyRewards'', ''31536000''),
         (''totalSupply'', ''1000000''), (''tokensPerInterval'', ''1'')] =
     JSON_stringify
       [(''baseApr'', reported_baseApr example_imported s t),
        (''yearlyRewards'', decimal (yearlyRewards example_imported t)),
        (''totalSupply'', decimal (unat s)),
        (''tokensPerInterval'', decimal (unat t))] \<and>
     is_integer_numeral (decimal (yearlyRewards example_imported t)) \<and>
     is_integer_numeral (decimal (unat s)) \<and>
     is_integer_numeral (decimal (unat t))) \<and>
   snd (getALPAPR example_imported \<lparr>chainName = ''sonic'', account = ''0x1''\<rparr>
      (example_options (example_provider (Inr 1000000) (Inr 1)))) =
     Returned (toResult (JSON_stringify
        [(''baseApr'', ''3153.60''), (''yearlyRewards'', ''31536000''),
         (''totalSupply'', ''1000000''), (''tokensPerInterval'', ''1'')]) False) \<and>
   is_integer_numeral ''31536000'' \<and> is_integer_numeral ''1000000'' \<and> is_integer_numeral ''1'' \<and>
   is_two_decimal_numeral ''3153.60''"
proof -
  have q: "(yearlyRewards example_imported 1 * PRECISION example_imported * 100) div unat (1000000 :: u256)
      = 3153600000000000062708152891185561"
    by (simp add: yearlyRewards_def example_imported_def)
  have r: "reported_baseApr example_imported 1000000 1 = ''3153.60''"
    by (simp only: reported_baseApr_def q example_rate_a toFixed2_a)
  have y: "decimal (yearlyRewards example_imported 1) = ''31536000''"
    "decimal (unat (1000000 :: u256)) = ''1000000''" "decimal (unat (1 :: u256)) = ''1''"
    "decimal 1000000 = ''1000000''" "decimal (Suc 0) = ''1''"
    by (simp_all add: yearlyRewards_def example_imported_def decimal.simps digit_char_def)
  have e: "snd (getALPAPR example_imported \<lparr>chainName = ''sonic'', account = ''0x1''\<rparr>
      (example_options (example_provider (Inr 1000000) (Inr 1)))) =
     Returned (toResult (JSON_stringify
        [(''baseApr'', ''3153.60''), (''yearlyRewards'', ''31536000''),
         (''totalSupply'', ''1000000''), (''tokensPerInterval'', ''1'')]) False)"
    by (simp add: example_success r y)
  have n: "is_integer_numeral ''31536000''" "is_integer_numeral ''1000000''" "is_integer_numeral ''1''"
    "is_two_decimal_numeral ''3153.60''"
    by (simp_all add: is_integer_numeral_def is_two_decimal_numeral_def is_digit_def)
  from result_numerals [OF e] e n show ?thesis by blast
qed

text \<open>
  Claim C5 as stated fails for 256-bit values that make the rate reach \<open>10^21\<close>: for
  \<open>totalSupply = 31536000\<close> and \<open>tokensPerInterval = 10^19\<close> the result holds the
  \<open>baseApr\<close> \<open>1e+21\<close>, which has no fractional digits.
\<close>

theorem exponential_string_counterexample:
  "getALPAPR example_imported \<lparr>chainName = ''sonic'', account = ''0x1''\<rparr>
      (example_options (example_provider (Inr 31536000) (Inr 10000000000000000000))) =
     ([Notify ''Checking ALP APR information...'', GetProvider 146,
       Notify ''Fetching total supply...'', ReadTotalSupply,
       Notify ''Fetching tokens per interval...'', ReadTokensPerInterval,
       Notify ''APR calculation completed''],
      Returned (toResult (JSON_stringify
        [(''baseApr'', ''1e+21''), (''yearlyRewards'', ''315360000000000000000000000''),
         (''totalSupply'', ''31536000''), (''tokensPerInterval'', ''10000000000000000000'')]) False)) \<and>
   \<not> is_two_decimal_numeral ''1e+21''"
proof
  have r: "reported_baseApr example_imported 31536000 10000000000000000000 = ''1e+21''"
    using example_rate_b
    by (simp add: reported_baseApr_def yearlyRewards_def example_imported_def toFixed2_b)
  have y: "decimal 315360000000000000000000000 = ''315360000000000000000000000''"
    "decimal 31536000 = ''31536000''" "decimal 10000000000000000000 = ''10000000000000000000''"
    by (simp_all add: decimal.simps digit_char_def)
  show "getALPAPR example_imported \<lparr>chainName = ''sonic'', account = ''0x1''\<rparr>
      (example_options (example_provider (Inr 31536000) (Inr 10000000000000000000))) =
     ([Notify ''Checking ALP APR information...'', GetProvider 146,
       Notify ''Fetching total supply...'', ReadTotalSupply,
       Notify ''Fetching tokens per interval...'', ReadTokensPerInterval,
       Notify ''APR calculation completed''],
      Returned (toResult (JSON_stringify
        [(''baseApr'', ''1e+21''), (''yearlyRewards'', ''315360000000000000000000000''),
         (''totalSupply'', ''31536000''), (''tokensPerInterval'', ''10000000000000000000'')]) False))"
    by (simp add: example_success r) (simp add: yearlyRewards_def example_imported_def y)
  show "\<not> is_two_decimal_numeral ''1e+21''"
    by (simp add: is_two_decimal_numeral_def)
qed




text \<open>
  Claim C7, amended. For a positive precision scalar and a total supply that is not
  zero, the integer quotient \<open>(yearlyRewards \<times> PRECISION \<times> 100) / totalSupply\<close>, divided
  exactly by the precision scalar, is at most the exact rate
  \<open>yearlyRewards \<times> 100 / totalSupply\<close> and less than \<open>1 / PRECISION\<close> below it: this is
  the truncation loss that the scaling bounds. The function then converts the quotient
  to a double and divides doubles; when the result is finite, it differs from the exact
  rate by at most \<open>1 / PRECISION\<close>, plus the exact rate times \<open>2^-51\<close>, plus \<open>2^-1073\<close>.
\<close>

theorem scaled_quotient_error:
  assumes "0 < PRECISION c" and "s \<noteq> 0"
  shows "\<exists>q. scaled_quotient c s t = Inr q \<and>
     (of_nat q / of_nat (PRECISION c) :: rat) \<le> of_nat (yearlyRewards c t * 100) / of_nat (unat s) \<and>
     (of_nat (yearlyRewards c t * 100) / of_nat (unat s) :: rat) - of_nat q / of_nat (PRECISION c)
        < 1 / of_nat (PRECISION c) \<and>
     (\<forall>y. baseApr c q = Finite y \<longrightarrow>
        \<bar>y - of_nat (yearlyRewards c t * 100) / of_nat (unat s)\<bar>
          \<le> 1 / of_nat (PRECISION c)
            + (of_nat (yearlyRewards c t * 100) / of_nat (unat s)) / 2 ^ 51 + 1 / 2 ^ 1073)"
proof -
  define a where "a = yearlyRewards c t * 100"
  define P where "P = PRECISION c"
  define n where "n = unat s"
  define q where "q = (a * P) div n"
  define e :: rat where "e = 1 / 2 ^ 1073"
  have n: "0 < n" using assms(2) by (simp add: n_def unat_gt_0)
  have P: "0 < P" using assms(1) by (simp add: P_def)
  have sq: "scaled_quotient c s t = Inr q"
    using n by (simp add: scaled_quotient_def bigint_div_def q_def a_def P_def n_def mult_ac)
  have lo: "(of_nat q / of_nat P :: rat) \<le> of_nat a / of_nat n"
    and hi: "(of_nat a / of_nat n :: rat) - of_nat q / of_nat P < 1 / of_nat P"
    unfolding q_def using P n by (rule quotient_bounds)+
  have fl: "\<bar>y - of_nat a / of_nat n\<bar> \<le> 1 / of_nat P + (of_nat a / of_nat n) / 2 ^ 51 + e"
    if "baseApr c q = Finite y" for y
  proof -
    have "y = round_double (round_double (of_nat q) / of_nat P)"
      using assms(1) that unfolding P_def by (rule baseApr_Finite)
    then have "\<bar>y - of_nat q / of_nat P\<bar> \<le> (of_nat q / of_nat P) / 2 ^ 51 + e"
      using two_roundings [OF P, of q] by (simp add: e_def)
    then show ?thesis using lo hi by simp
  qed
  show ?thesis
    using sq lo hi fl unfolding a_def P_def n_def e_def by blast
qed

theorem scaled_quotient_error_witness:
  "scaled_quotient example_imported 1000000 1 = Inr 3153600000000000062708152891185561 \<and>
   (3153600000000000062708152891185561 / 1000000000000000019884624838656 :: rat) \<le> 3153600000 / 1000000 \<and>
   (3153600000 / 1000000 :: rat) - 3153600000000000062708152891185561 / 1000000000000000019884624838656
      < 1 / 1000000000000000019884624838656"
  using scaled_quotient_error [of example_imported 1000000 1]
  by (simp add: scaled_quotient_def bigint_div_def yearlyRewards_def example_imported_def)

text \<open>
  Claim C7 as stated fails for the value the function computes, a double: for
  \<open>totalSupply = 1000000\<close> and \<open>tokensPerInterval = 1\<close> the exact rate is \<open>3153.6\<close>,
  which no double equals; the double computed differs from it by more than
  \<open>1 / PRECISION\<close> for the precision scalar \<open>1e30\<close>.
\<close>

theorem double_precision_counterexample:
  "scaled_quotient example_imported 1000000 1 = Inr 3153600000000000062708152891185561 \<and>
   baseApr example_imported 3153600000000000062708152891185561 =
     Finite (6934839738708787 / 2199023255552) \<and>
   1 / of_nat (PRECISION example_imported)
     < \<bar>6934839738708787 / 2199023255552
         - (of_nat (yearlyRewards example_imported 1 * 100) / of_nat (unat (1000000 :: u256)) :: rat)\<bar>"
  by (simp add: example_rate_a)
    (simp add: scaled_quotient_def bigint_div_def yearlyRewards_def example_imported_def)

end
